theory Spec2Isabelle
  imports Main "HOL-Library.Sublist" "HOL-Library.Word"
begin

section \<open>Python strings\<close>

text \<open>
  A Python \<open>str\<close> is a sequence of Unicode code points, and \<open>len\<close> counts code
  points. The model therefore takes a string to be a list of code points (natural numbers),
  not a list of 8-bit characters. Literals of the source are written with \<open>ascii\<close>.
\<close>

type_synonym pystr = "nat list"

definition ascii :: "string \<Rightarrow> pystr" where
  "ascii s = map of_char s"

text \<open>
  \<open>str.isspace\<close> for one code point, as used by \<open>str.strip()\<close> and \<open>str.split()\<close>
  without arguments: the ASCII controls 9 to 13 and 28 to 31, the space, and the Unicode
  white space beyond ASCII.
\<close>

definition isspace :: "nat \<Rightarrow> bool" where
  "isspace c \<longleftrightarrow>
     (9 \<le> c \<and> c \<le> 13) \<or> (28 \<le> c \<and> c \<le> 32) \<or> c = 133 \<or> c = 160 \<or> c = 5760 \<or>
     (8192 \<le> c \<and> c \<le> 8202) \<or> c = 8232 \<or> c = 8233 \<or> c = 8239 \<or> c = 8287 \<or> c = 12288"

text \<open>\<open>s.strip()\<close>: white space removed at both ends.\<close>

definition strip :: "pystr \<Rightarrow> pystr" where
  "strip s = rev (dropWhile isspace (rev (dropWhile isspace s)))"

text \<open>\<open>s.replace('\x00', '')\<close>: every null code point removed.\<close>

definition remove_nulls :: "pystr \<Rightarrow> pystr" where
  "remove_nulls s = filter (\<lambda>c. c \<noteq> 0) s"

text \<open>
  \<open>s.split()\<close>: the maximal runs of non-white-space code points, in order; no empty
  token is produced.
\<close>

function split_ws :: "pystr \<Rightarrow> pystr list" where
  "split_ws s =
     (let t = dropWhile isspace s
      in if t = [] then []
         else takeWhile (\<lambda>c. \<not> isspace c) t # split_ws (dropWhile (\<lambda>c. \<not> isspace c) t))"
  by pat_completeness auto
termination
proof (relation "measure length")
  show "wf (measure length)" by simp
next
  fix s t :: pystr
  assume t: "t = dropWhile isspace s" and ne: "t \<noteq> []"
  from ne obtain c cs where tc: "t = c # cs" by (cases t) auto
  have "\<not> isspace (hd (dropWhile isspace s))"
    using ne unfolding t by (rule hd_dropWhile)
  then have "\<not> isspace c"
    using t tc by (metis list.sel(1))
  then have "dropWhile (\<lambda>c. \<not> isspace c) t = dropWhile (\<lambda>c. \<not> isspace c) cs"
    by (simp add: tc)
  then have "length (dropWhile (\<lambda>c. \<not> isspace c) t) \<le> length cs"
    by (simp add: length_dropWhile_le)
  also have "length cs < length t" by (simp add: tc)
  also have "length t \<le> length s" by (simp add: t length_dropWhile_le)
  finally show "(dropWhile (\<lambda>c. \<not> isspace c) t, s) \<in> measure length" by simp
qed

declare split_ws.simps [simp del]


text \<open>\<open>sep.join(ws)\<close>.\<close>

fun join :: "pystr \<Rightarrow> pystr list \<Rightarrow> pystr" where
  "join sep [] = []"
| "join sep [w] = w"
| "join sep (w # v # ws) = w @ sep @ join sep (v # ws)"

text \<open>
  \<open>xs[:n]\<close> for a Python integer \<open>n\<close>: a negative bound counts from the end and is
  clamped at the start of the list.
\<close>

definition slice_to :: "'a list \<Rightarrow> int \<Rightarrow> 'a list" where
  "slice_to xs n = (if n < 0 then take (nat (int (length xs) + n)) xs else take (nat n) xs)"

text \<open>\<open>xs[k:]\<close> for a non-negative \<open>k\<close>.\<close>

definition slice_from :: "'a list \<Rightarrow> nat \<Rightarrow> 'a list" where
  "slice_from xs k = drop k xs"

text \<open>
  \<open>s.find(sub)\<close>: the lowest index at which \<open>sub\<close> occurs in \<open>s\<close>, \<open>None\<close> standing
  for Python's \<open>-1\<close>; and \<open>sub in s\<close>.
\<close>

fun find_str :: "pystr \<Rightarrow> pystr \<Rightarrow> nat option" where
  "find_str sub [] = (if sub = [] then Some 0 else None)"
| "find_str sub (c # cs) =
     (if prefix sub (c # cs) then Some 0 else map_option Suc (find_str sub cs))"

definition contains :: "pystr \<Rightarrow> pystr \<Rightarrow> bool" where
  "contains sub s \<longleftrightarrow> find_str sub s \<noteq> None"

text \<open>\<open>s.split(sep)\<close> for a one-character separator: one piece more than separators.\<close>

fun split_on :: "nat \<Rightarrow> pystr \<Rightarrow> pystr list" where
  "split_on sep [] = [[]]"
| "split_on sep (c # cs) =
     (if c = sep then [] # split_on sep cs
      else (case split_on sep cs of
              [] \<Rightarrow> [[c]]
            | w # ws \<Rightarrow> (c # w) # ws))"

text \<open>\<open>xs[i]\<close> for a non-negative index; \<open>None\<close> is the \<open>IndexError\<close>.\<close>

definition index :: "'a list \<Rightarrow> nat \<Rightarrow> 'a option" where
  "index xs i = (if i < length xs then Some (xs ! i) else None)"

text \<open>\<open>str(n)\<close> for a Python integer, as an f-string field prints it.\<close>

fun digits :: "nat \<Rightarrow> pystr" where
  "digits n = (if n < 10 then [48 + n] else digits (n div 10) @ [48 + n mod 10])"

definition str_int :: "int \<Rightarrow> pystr" where
  "str_int n = (if n < 0 then 45 # digits (nat (- n)) else digits (nat n))"


section \<open>Data model and environment\<close>

text \<open>
  A conversation turn is the dictionary \<open>{"role": ..., "content": ...}\<close>; the three role
  strings the source writes are the constructors of \<open>role\<close>.
\<close>

datatype role = System | User | Assistant

record message =
  role :: role
  content :: pystr

text \<open>The fields of a \<open>CerebrasLLM\<close> object.\<close>

record CerebrasLLM =
  api_key :: pystr
  system_prompt :: pystr
  base_url :: pystr
  conversation_history :: "message list"

type_synonym byte = "8 word"

text \<open>
  Everything the code does to the outside world is recorded, in order, in a trace: the
  calls of the PDF extractor, the HTTP requests (a POST with the model and the messages of
  its JSON body) and the file-system operations.
\<close>

datatype event =
    PdfExtract pystr
  | HttpGet pystr
  | HttpPost pystr pystr "message list"
  | Makedirs pystr
  | Remove pystr
  | OpenWrite pystr
  | WriteChunk pystr "byte list"

text \<open>
  The store is what the operating system shows through its path resolution: \<open>files w p\<close>
  is the content of the regular file that the path \<open>p\<close> denotes, \<open>dirs w\<close> the paths
  that denote directories.
\<close>

record world =
  files :: "pystr \<rightharpoonup> byte list"
  dirs :: "pystr set"
  trace :: "event list"

type_synonym store = "(pystr \<rightharpoonup> byte list) \<times> pystr set"

text \<open>
  The result of \<open>urlparse(drive_link)\<close> as far as the code reads it: the path, and the
  dictionary \<open>parse_qs(parsed_url.query)\<close> from parameter names to their lists of values.
\<close>

record parsed_url =
  url_path :: pystr
  query_params :: "pystr \<rightharpoonup> pystr list"

text \<open>
  The reply to \<open>GET {base_url}models\<close> after \<open>response.json()\<close> and the list
  comprehension over \<open>"data"\<close>: the request raises, the decoding raises, or a list of
  identifiers results.
\<close>

datatype models_reply = ModelsNetworkFailure | ModelsParseFailure | ModelsData "pystr list"

text \<open>
  The JSON body of a chat-completion response. A choice is \<open>None\<close> when it has no
  \<open>"message"\<close> key, \<open>Some None\<close> when the message has no \<open>"content"\<close> key; the list of
  choices is \<open>None\<close> when the body has no \<open>"choices"\<close> key.
\<close>

datatype choice_json = ChoiceJson "pystr option option"

datatype completion_body = InvalidJson | CompletionJson "choice_json list option"

datatype completion_reply = CompletionNetworkFailure | CompletionResponse int completion_body

record download_response =
  status_code :: int
  chunks :: "byte list list"
  stream_fails :: bool

datatype download_reply = DownloadNetworkFailure | DownloadResponse download_response

text \<open>
  The libraries, the operating system and the remote services the code calls are
  parameters of the model: \<open>urlparse\<close> and the PDF extractor (\<open>None\<close> when they
  raise), the size the platform reports for a directory, the module constant
  \<open>CEREBRAS_API_KEY\<close>, the replies of the three HTTP endpoints, and what
  \<open>os.makedirs(p, exist_ok=True)\<close>, \<open>os.remove(p)\<close>, \<open>open(p, 'wb')\<close> and a
  \<open>write\<close> to the file opened at \<open>p\<close> do to the store (\<open>None\<close> when they raise).
  How paths are resolved, which parent directories must exist and which spellings name
  the same file is thus left to the operating system.
\<close>

record environment =
  credential :: pystr
  urlparse :: "pystr \<Rightarrow> parsed_url option"
  pdfminer :: "byte list \<Rightarrow> pystr option"
  dir_size :: "pystr \<Rightarrow> nat"
  models_endpoint :: models_reply
  completions_endpoint :: "pystr \<Rightarrow> message list \<Rightarrow> completion_reply"
  download_endpoint :: "pystr \<Rightarrow> download_reply"
  os_makedirs :: "pystr \<Rightarrow> store \<Rightarrow> store option"
  os_remove :: "pystr \<Rightarrow> store \<Rightarrow> store option"
  os_open_wb :: "pystr \<Rightarrow> store \<Rightarrow> store option"
  os_write :: "pystr \<Rightarrow> byte list \<Rightarrow> store \<Rightarrow> store option"

definition CEREBRAS_BASE_URL :: pystr where
  "CEREBRAS_BASE_URL = ascii ''https://api.cerebras.ai/v1/''"

definition log_event :: "event \<Rightarrow> world \<Rightarrow> world" where
  "log_event e w = w\<lparr>trace := trace w @ [e]\<rparr>"

text \<open>\<open>os.path.exists\<close> and \<open>os.path.getsize\<close>.\<close>

definition path_exists :: "world \<Rightarrow> pystr \<Rightarrow> bool" where
  "path_exists w p \<longleftrightarrow> files w p \<noteq> None \<or> p \<in> dirs w"

definition getsize :: "environment \<Rightarrow> world \<Rightarrow> pystr \<Rightarrow> nat" where
  "getsize env w p = (case files w p of Some bs \<Rightarrow> length bs | None \<Rightarrow> dir_size env p)"

section \<open>Text extraction\<close>

text \<open>
  \<open>extract_text_with_pdfminer\<close> returns the text or \<open>None\<close>; which of its failure
  branches ran is visible in the message it logs. The model returns the branch, and
  \<open>extraction_value\<close> is the Python return value.
\<close>

datatype extraction = NotFound | EmptyFile | CorruptOrProtected | TooShort nat | Extracted pystr

fun extraction_value :: "extraction \<Rightarrow> pystr option" where
  "extraction_value (Extracted t) = Some t"
| "extraction_value _ = None"

definition extract_text_with_pdfminer :: "environment \<Rightarrow> pystr \<Rightarrow> world \<Rightarrow> extraction \<times> world" where
  "extract_text_with_pdfminer env pdf_path w =
     (if \<not> path_exists w pdf_path then (NotFound, w)
      else
        let file_size = getsize env w pdf_path
        in if file_size = 0 then (EmptyFile, w)
           else
             let w' = log_event (PdfExtract pdf_path) w
             in (case (case files w pdf_path of None \<Rightarrow> None | Some bs \<Rightarrow> pdfminer env bs) of
                   None \<Rightarrow> (CorruptOrProtected, w')
                 | Some raw \<Rightarrow>
                     let text = strip (remove_nulls raw)
                     in if length text < 10 then (TooShort (length text), w')
                        else (Extracted text, w')))"

section \<open>The language-model client\<close>

definition reset_conversation :: "CerebrasLLM \<Rightarrow> CerebrasLLM" where
  "reset_conversation self =
     self\<lparr>conversation_history := [\<lparr>role = System, content = system_prompt self\<rparr>]\<rparr>"

text \<open>The constructor \<open>CerebrasLLM(api_key, system_prompt)\<close>.\<close>

definition new_CerebrasLLM :: "pystr \<Rightarrow> pystr \<Rightarrow> CerebrasLLM" where
  "new_CerebrasLLM key prompt =
     reset_conversation
       \<lparr>api_key = key, system_prompt = prompt, base_url = CEREBRAS_BASE_URL,
        conversation_history = []\<rparr>"

definition get_available_models :: "environment \<Rightarrow> CerebrasLLM \<Rightarrow> world \<Rightarrow> pystr list \<times> world" where
  "get_available_models env self w =
     (let w' = log_event (HttpGet (base_url self @ ascii ''models'')) w
      in case models_endpoint env of
           ModelsNetworkFailure \<Rightarrow> ([], w')
         | ModelsParseFailure \<Rightarrow> ([], w')
         | ModelsData ids \<Rightarrow> (ids, w'))"

definition think_end :: pystr where
  "think_end = ascii ''</think>''"

text \<open>
  \<open>extract_actual_response\<close>. Python's \<open>find\<close> returns \<open>-1\<close> when the marker is absent,
  so that \<open>think_end_pos + 8\<close> would be 7; the branch cannot run under the \<open>in\<close> test and
  is kept as written.
\<close>

definition extract_actual_response :: "pystr \<Rightarrow> pystr" where
  "extract_actual_response full_response =
     (if contains think_end full_response then
        (case find_str think_end full_response of
           Some think_end_pos \<Rightarrow> strip (slice_from full_response (think_end_pos + 8))
         | None \<Rightarrow> strip (slice_from full_response 7))
      else full_response)"

definition preferred_models :: "pystr list" where
  "preferred_models = [ascii ''llama3.1-70b'', ascii ''llama-3.3-70b'', ascii ''llama3.1-8b'']"

text \<open>The \<open>for preferred in preferred_models\<close> loop with its \<open>break\<close>.\<close>

fun first_preferred :: "pystr list \<Rightarrow> pystr list \<Rightarrow> pystr option" where
  "first_preferred [] models = None"
| "first_preferred (preferred # rest) models =
     (if preferred \<in> set models then Some preferred else first_preferred rest models)"

text \<open>
  Model selection: the loop, then \<open>models[0]\<close> when \<open>selected_model\<close> is falsy
  (\<open>None\<close> or the empty string). \<open>None\<close> is the \<open>IndexError\<close> of \<open>models[0]\<close>.
\<close>

definition select_model :: "pystr list \<Rightarrow> pystr option" where
  "select_model models =
     (let selected_model = first_preferred preferred_models models
      in if selected_model = None \<or> selected_model = Some [] then index models 0
         else selected_model)"

text \<open>
  \<open>result.get("choices", [{}])[0].get("message", {}).get("content", "")\<close>; \<open>None\<close> when
  \<open>response.json()\<close> or the index raises.
\<close>

fun completion_content :: "completion_body \<Rightarrow> pystr option" where
  "completion_content InvalidJson = None"
| "completion_content (CompletionJson None) = Some []"
| "completion_content (CompletionJson (Some [])) = None"
| "completion_content (CompletionJson (Some (ChoiceJson None # _))) = Some []"
| "completion_content (CompletionJson (Some (ChoiceJson (Some None) # _))) = Some []"
| "completion_content (CompletionJson (Some (ChoiceJson (Some (Some c)) # _))) = Some c"

text \<open>
  \<open>get_response\<close> returns the reply or \<open>None\<close>; the failure branches differ in the
  message logged: no models, a non-200 status, or an exception caught by the handler.
\<close>

datatype completion = NoModels | ApiError int | LlmError | Answer pystr

fun completion_value :: "completion \<Rightarrow> pystr option" where
  "completion_value (Answer t) = Some t"
| "completion_value _ = None"

definition get_response ::
  "environment \<Rightarrow> CerebrasLLM \<Rightarrow> pystr \<Rightarrow> world \<Rightarrow> completion \<times> CerebrasLLM \<times> world" where
  "get_response env self0 user_input w0 =
     (let self = self0\<lparr>conversation_history :=
                   conversation_history self0 @ [\<lparr>role = User, content = user_input\<rparr>]\<rparr>;
          (models, w1) = get_available_models env self w0
      in if models = [] then (NoModels, self, w1)
         else
           (case select_model models of
              None \<Rightarrow> (LlmError, self, w1)
            | Some selected_model \<Rightarrow>
                let w2 = log_event (HttpPost (base_url self @ ascii ''chat/completions'')
                                      selected_model (conversation_history self)) w1
                in (case completions_endpoint env selected_model (conversation_history self) of
                      CompletionNetworkFailure \<Rightarrow> (LlmError, self, w2)
                    | CompletionResponse status body \<Rightarrow>
                        if status = 200 then
                          (case completion_content body of
                             None \<Rightarrow> (LlmError, self, w2)
                           | Some full_response \<Rightarrow>
                               let actual_response = extract_actual_response full_response
                               in (Answer actual_response,
                                   self\<lparr>conversation_history := conversation_history self @
                                          [\<lparr>role = Assistant, content = actual_response\<rparr>]\<rparr>,
                                   w2))
                        else (ApiError status, self, w2))))"


section \<open>Summarization\<close>

definition max_chars :: nat where
  "max_chars = 8000"

text \<open>The clipping of the document text to \<open>max_chars\<close> characters.\<close>

definition clip_document :: "pystr \<Rightarrow> pystr" where
  "clip_document pdf_text =
     (if length pdf_text > max_chars then slice_to pdf_text (int max_chars) else pdf_text)"

text \<open>
  The same clipping with the objects made explicit. Python passes the caller's string by
  reference; the slice \<open>pdf_text[:max_chars]\<close> is a new string object, and the
  assignment rebinds the local name to it. The heap is the list of string objects, a
  reference is an index into it; the result is the reference the local name holds after
  the statement, with the heap. \<open>None\<close> stands for a reference to no object.
\<close>

type_synonym heap = "pystr list"

definition clip_document_ref :: "nat \<Rightarrow> heap \<Rightarrow> (nat \<times> heap) option" where
  "clip_document_ref pdf_text h =
     (case index h pdf_text of
        None \<Rightarrow> None
      | Some text \<Rightarrow>
          if length text > max_chars
          then Some (length h, h @ [slice_to text (int max_chars)])
          else Some (pdf_text, h))"

definition summarization_system_prompt :: pystr where
  "summarization_system_prompt = ascii
     ''You are a helpful AI assistant specialized in document summarization.\<newline>Your task is to read documents in any language and provide clear, concise summaries in English.\<newline>Focus on capturing the main points, key ideas, and important details.''"

text \<open>The f-string \<open>user_prompt\<close>: the text before the document and the text after it.\<close>

definition prompt_head :: "int \<Rightarrow> pystr" where
  "prompt_head max_words =
     ascii ''Please read the following document carefully and provide a comprehensive summary in English.\<newline>\<newline>The summary should:\<newline>- Be approximately ''
     @ str_int max_words
     @ ascii '' words\<newline>- Capture all the main points and key ideas\<newline>- Be written in clear, professional English\<newline>- Include important details and context\<newline>\<newline>DOCUMENT:\<newline>''"

definition prompt_tail :: pystr where
  "prompt_tail = ascii ''\<newline>\<newline>Please provide the summary in English:''"

definition user_prompt :: "int \<Rightarrow> pystr \<Rightarrow> pystr" where
  "user_prompt max_words pdf_text = prompt_head max_words @ pdf_text @ prompt_tail"

text \<open>The clipping of the summary to \<open>max_words\<close> words.\<close>

definition truncate_words :: "pystr \<Rightarrow> int \<Rightarrow> pystr" where
  "truncate_words summary max_words =
     (let words = split_ws summary
      in if int (length words) > max_words then join (ascii '' '') (slice_to words max_words)
         else summary)"

text \<open>
  \<open>summarize_pdf_with_cerebras\<close> returns the summary or \<open>None\<close>. The model returns the
  branch taken, the session object if one was created, and the world. The argument is a
  string; for \<open>None\<close> the guard \<open>not pdf_text\<close> gives the same early return as for
  the empty string.
\<close>

datatype summary = TextTooShort | GenerationFailed | Summarized pystr

fun summary_value :: "summary \<Rightarrow> pystr option" where
  "summary_value (Summarized t) = Some t"
| "summary_value _ = None"

definition summarize_pdf_with_cerebras ::
  "environment \<Rightarrow> pystr \<Rightarrow> int \<Rightarrow> world \<Rightarrow> summary \<times> CerebrasLLM option \<times> world" where
  "summarize_pdf_with_cerebras env pdf_text0 max_words w =
     (if pdf_text0 = [] \<or> length (strip pdf_text0) < 50 then (TextTooShort, None, w)
      else
        let pdf_text = clip_document pdf_text0;
            llm = new_CerebrasLLM (credential env) summarization_system_prompt;
            (r, llm', w') = get_response env llm (user_prompt max_words pdf_text) w
        in (case completion_value r of
              None \<Rightarrow> (GenerationFailed, Some llm', w')
            | Some s \<Rightarrow>
                if s \<noteq> [] then (Summarized (truncate_words s max_words), Some llm', w')
                else (GenerationFailed, Some llm', w')))"

section \<open>Link resolution and download\<close>

text \<open>
  \<open>parse_qs(parsed_url.query).get('id', [None])[0]\<close>. The outer \<open>None\<close> is an
  exception raised (an empty list of values indexed at 0), the inner one Python's
  \<open>None\<close>.
\<close>

definition query_id :: "parsed_url \<Rightarrow> pystr option option" where
  "query_id u =
     (case query_params u (ascii ''id'') of
        None \<Rightarrow> Some None
      | Some vs \<Rightarrow> map_option Some (index vs 0))"

text \<open>\<open>not file_id\<close>: \<open>None\<close> and the empty string are falsy.\<close>

definition falsy :: "pystr option \<Rightarrow> bool" where
  "falsy x \<longleftrightarrow> x = None \<or> x = Some []"

text \<open>\<open>parsed_url.path.split('/')[3] if '/d/' in parsed_url.path else None\<close>.\<close>

definition path_id :: "parsed_url \<Rightarrow> pystr option option" where
  "path_id u =
     (if contains (ascii ''/d/'') (url_path u)
      then map_option Some (index (split_on 47 (url_path u)) 3)
      else Some None)"

definition resolve_file_id :: "parsed_url \<Rightarrow> pystr option option" where
  "resolve_file_id u =
     (case query_id u of
        None \<Rightarrow> None
      | Some file_id \<Rightarrow> if falsy file_id then path_id u else Some file_id)"

definition download_url :: "pystr \<Rightarrow> pystr" where
  "download_url file_id = ascii ''https://drive.google.com/uc?export=download&id='' @ file_id"

text \<open>\<open>os.path.join\<close> of two components on a POSIX system.\<close>

definition os_path_join :: "pystr \<Rightarrow> pystr \<Rightarrow> pystr" where
  "os_path_join a b =
     (if b \<noteq> [] \<and> hd b = 47 then b
      else if a = [] \<or> last a = 47 then a @ b
      else a @ [47] @ b)"

text \<open>
  A call of the operating system: the call is recorded in the trace; it returns whether it
  succeeded (\<open>False\<close>: it raised) and the world after it.
\<close>

definition os_call :: "event \<Rightarrow> (store \<Rightarrow> store option) \<Rightarrow> world \<Rightarrow> bool \<times> world" where
  "os_call e f w =
     (let w' = log_event e w
      in case f (files w, dirs w) of
           None \<Rightarrow> (False, w')
         | Some (fs, ds) \<Rightarrow> (True, w'\<lparr>files := fs, dirs := ds\<rparr>))"

definition makedirs :: "environment \<Rightarrow> pystr \<Rightarrow> world \<Rightarrow> bool \<times> world" where
  "makedirs env p w = os_call (Makedirs p) (os_makedirs env p) w"

definition remove :: "environment \<Rightarrow> pystr \<Rightarrow> world \<Rightarrow> bool \<times> world" where
  "remove env p w = os_call (Remove p) (os_remove env p) w"

definition open_wb :: "environment \<Rightarrow> pystr \<Rightarrow> world \<Rightarrow> bool \<times> world" where
  "open_wb env p w = os_call (OpenWrite p) (os_open_wb env p) w"

text \<open>
  The loop over \<open>response.iter_content\<close>: every non-empty chunk is written; a write that
  raises ends the loop.
\<close>

fun write_chunks :: "environment \<Rightarrow> pystr \<Rightarrow> byte list list \<Rightarrow> world \<Rightarrow> bool \<times> world" where
  "write_chunks env p [] w = (True, w)"
| "write_chunks env p (chunk # rest) w =
     (if chunk \<noteq> [] then
        (case os_call (WriteChunk p chunk) (os_write env p chunk) w of
           (written, w') \<Rightarrow> if written then write_chunks env p rest w' else (False, w'))
      else write_chunks env p rest w)"

text \<open>
  \<open>download_pdf\<close> returns nothing; the branch taken is visible in the line it prints:
  an invalid link, a failed download, an exception caught by the handler, or the path
  stored.
\<close>

datatype download = InvalidLink | DownloadFailed | ErrorOccurred | Stored pystr

text \<open>The \<open>with open(...)\<close> block and the final message.\<close>

definition save_file ::
  "environment \<Rightarrow> download_response \<Rightarrow> pystr \<Rightarrow> world \<Rightarrow> download \<times> world" where
  "save_file env response target_path w =
     (let (opened, w1) = open_wb env target_path w
      in if \<not> opened then (ErrorOccurred, w1)
         else
           let (written, w2) = write_chunks env target_path (chunks response) w1
           in if \<not> written \<or> stream_fails response then (ErrorOccurred, w2)
              else (Stored target_path, w2))"

text \<open>What \<open>download_pdf\<close> does once the status 200 has been seen.\<close>

definition store_download ::
  "environment \<Rightarrow> download_response \<Rightarrow> pystr \<Rightarrow> pystr \<Rightarrow> world \<Rightarrow> download \<times> world" where
  "store_download env response email title w =
     (let parent_folder = ascii ''researchers/'' @ email;
          (made, w1) = makedirs env parent_folder w
      in if \<not> made then (ErrorOccurred, w1)
         else
           let new_filename = title @ ascii ''.pdf'';
               target_path = os_path_join parent_folder new_filename
           in if path_exists w1 target_path then
                (let (removed, w2) = remove env target_path w1
                 in if \<not> removed then (ErrorOccurred, w2)
                    else save_file env response target_path w2)
              else save_file env response target_path w1)"

definition download_pdf ::
  "environment \<Rightarrow> pystr \<Rightarrow> pystr \<Rightarrow> pystr \<Rightarrow> world \<Rightarrow> download \<times> world" where
  "download_pdf env drive_link email title w =
     (case urlparse env drive_link of
        None \<Rightarrow> (ErrorOccurred, w)
      | Some parsed \<Rightarrow>
          (case resolve_file_id parsed of
             None \<Rightarrow> (ErrorOccurred, w)
           | Some None \<Rightarrow> (InvalidLink, w)
           | Some (Some file_id) \<Rightarrow>
               if file_id = [] then (InvalidLink, w)
               else
                 let w1 = log_event (HttpGet (download_url file_id)) w
                 in (case download_endpoint env (download_url file_id) of
                       DownloadNetworkFailure \<Rightarrow> (ErrorOccurred, w1)
                     | DownloadResponse response \<Rightarrow>
                         if status_code response \<noteq> 200 then (DownloadFailed, w1)
                         else store_download env response email title w1)))"

section \<open>Example environments\<close>

text \<open>An environment in which every library call raises and every request fails.\<close>

definition offline_env :: environment where
  "offline_env =
     \<lparr>credential = [], urlparse = (\<lambda>_. None), pdfminer = (\<lambda>_. None), dir_size = (\<lambda>_. 0),
      models_endpoint = ModelsNetworkFailure,
      completions_endpoint = (\<lambda>_ _. CompletionNetworkFailure),
      download_endpoint = (\<lambda>_. DownloadNetworkFailure),
      os_makedirs = (\<lambda>_ _. None), os_remove = (\<lambda>_ _. None),
      os_open_wb = (\<lambda>_ _. None), os_write = (\<lambda>_ _ _. None)\<rparr>"

definition empty_world :: world where
  "empty_world = \<lparr>files = Map.empty, dirs = {}, trace = []\<rparr>"

text \<open>
  A store with an empty file and three files of one byte, and an extractor that raises on
  the first and returns a text of 9 and a text of 10 characters, wrapped in white space and
  null characters, on the other two.
\<close>

definition stub_world :: world where
  "stub_world =
     \<lparr>files = [ascii ''empty.pdf'' \<mapsto> [], ascii ''locked.pdf'' \<mapsto> [1],
               ascii ''nine.pdf'' \<mapsto> [2], ascii ''ten.pdf'' \<mapsto> [3]],
      dirs = {}, trace = []\<rparr>"

definition stub_env :: environment where
  "stub_env =
     offline_env\<lparr>pdfminer :=
       (\<lambda>bs. if bs = [2] then Some (ascii '' 123456789'' @ [0, 32])
             else if bs = [3] then Some (0 # ascii '' 1234567890 '')
             else None)\<rparr>"

text \<open>
  An operating system for the examples, on a store whose paths are plain names: a
  directory can be made where no file is, a file can be removed, a file can be opened for
  writing where no directory is, which leaves it empty, and a write appends.
\<close>

definition plain_makedirs :: "pystr \<Rightarrow> store \<Rightarrow> store option" where
  "plain_makedirs p s = (if fst s p \<noteq> None then None else Some (fst s, insert p (snd s)))"

definition plain_remove :: "pystr \<Rightarrow> store \<Rightarrow> store option" where
  "plain_remove p s = (if fst s p = None then None else Some ((fst s)(p := None), snd s))"

definition plain_open_wb :: "pystr \<Rightarrow> store \<Rightarrow> store option" where
  "plain_open_wb p s = (if p \<in> snd s then None else Some ((fst s)(p \<mapsto> []), snd s))"

definition plain_write :: "pystr \<Rightarrow> byte list \<Rightarrow> store \<Rightarrow> store option" where
  "plain_write p chunk s =
     Some ((fst s)(p \<mapsto> (case fst s p of None \<Rightarrow> chunk | Some old \<Rightarrow> old @ chunk)), snd s)"

text \<open>
  A store holding one earlier download, and an environment in which \<open>urlparse\<close> yields
  the path \<open>/file/d/XYZ789/view\<close> with no query and the download is answered with a
  given status and three chunks, the second of them empty.
\<close>

definition stored_world :: world where
  "stored_world =
     \<lparr>files = [ascii ''researchers/ann/paper.pdf'' \<mapsto> [1, 2, 3]],
      dirs = {ascii ''researchers/ann''}, trace = []\<rparr>"

definition drive_env :: "int \<Rightarrow> environment" where
  "drive_env status =
     offline_env
       \<lparr>urlparse :=
          (\<lambda>_. Some \<lparr>url_path = ascii ''/file/d/XYZ789/view'', query_params = Map.empty\<rparr>),
        download_endpoint :=
          (\<lambda>_. DownloadResponse
                 \<lparr>status_code = status, chunks = [[7], [], [8, 9]], stream_fails = False\<rparr>),
        os_makedirs := plain_makedirs, os_remove := plain_remove,
        os_open_wb := plain_open_wb, os_write := plain_write\<rparr>"

section \<open>Properties of the string operations\<close>

lemma isspace_32: "isspace 32"
  by (simp add: isspace_def)

lemma find_str_prefix_drop:
  "find_str sub s = Some i \<Longrightarrow> i \<le> length s \<and> prefix sub (drop i s) \<and> (\<forall>j<i. \<not> prefix sub (drop j s))"
proof (induction s arbitrary: i)
  case Nil
  then show ?case by (auto split: if_splits)
next
  case (Cons c cs)
  show ?case
  proof (cases "prefix sub (c # cs)")
    case True
    with Cons.prems show ?thesis by simp
  next
    case False
    with Cons.prems obtain k where k: "find_str sub cs = Some k" "i = Suc k" by auto
    from Cons.IH [OF k(1)] have ih: "k \<le> length cs" "prefix sub (drop k cs)"
      "\<forall>j<k. \<not> prefix sub (drop j cs)" by auto
    have "\<not> prefix sub (drop j (c # cs))" if "j < i" for j
    proof (cases j)
      case 0
      with False show ?thesis by simp
    next
      case (Suc j')
      with that k(2) ih(3) show ?thesis by simp
    qed
    with ih k(2) show ?thesis by simp
  qed
qed

lemma find_str_None_drop:
  "find_str sub s = None \<Longrightarrow> j \<le> length s \<Longrightarrow> \<not> prefix sub (drop j s)"
proof (induction s arbitrary: j)
  case Nil
  then show ?case by (auto split: if_splits)
next
  case (Cons c cs)
  from Cons.prems(1) have np: "\<not> prefix sub (c # cs)" and n: "find_str sub cs = None"
    by (auto split: if_splits)
  show ?case
  proof (cases j)
    case 0
    with np show ?thesis by simp
  next
    case (Suc j')
    with Cons.prems(2) Cons.IH [OF n, of j'] show ?thesis by simp
  qed
qed

lemma sublist_iff_prefix_drop:
  "sublist sub s \<longleftrightarrow> (\<exists>j\<le>length s. prefix sub (drop j s))"
proof
  assume "sublist sub s"
  then obtain ps ss where "s = ps @ sub @ ss" by (auto simp: sublist_def)
  then have "length ps \<le> length s" "prefix sub (drop (length ps) s)" by auto
  then show "\<exists>j\<le>length s. prefix sub (drop j s)" by blast
next
  assume "\<exists>j\<le>length s. prefix sub (drop j s)"
  then obtain j zs where "drop j s = sub @ zs" by (auto simp: prefix_def)
  then have "s = take j s @ sub @ zs" by (metis append_take_drop_id)
  then show "sublist sub s" by (auto simp: sublist_def)
qed

lemma contains_iff_sublist: "contains sub s \<longleftrightarrow> sublist sub s"
proof (cases "find_str sub s")
  case None
  then show ?thesis
    using find_str_None_drop [of sub s] by (auto simp: contains_def sublist_iff_prefix_drop)
next
  case (Some i)
  then show ?thesis
    using find_str_prefix_drop [of sub s i] by (auto simp: contains_def sublist_iff_prefix_drop)
qed

lemma find_str_first:
  assumes "\<not> sublist sub (pre @ butlast sub)" "sub \<noteq> []"
  shows "find_str sub (pre @ sub @ post) = Some (length pre)"
proof -
  let ?s = "pre @ sub @ post"
  have occ: "prefix sub (drop (length pre) ?s)" by simp
  have "find_str sub ?s \<noteq> None"
    using find_str_None_drop [of sub ?s "length pre"] occ by auto
  then obtain i where i: "find_str sub ?s = Some i" by auto
  from find_str_prefix_drop [OF i]
  have pi: "prefix sub (drop i ?s)" and least: "\<forall>j<i. \<not> prefix sub (drop j ?s)" by auto
  from least occ have "\<not> length pre < i" by blast
  moreover have "\<not> i < length pre"
  proof
    assume lt: "i < length pre"
    from pi obtain zs where zs: "drop i ?s = sub @ zs" by (auto simp: prefix_def)
    have "drop i ?s = drop i pre @ sub @ post" using lt by simp
    with zs have eq: "drop i pre @ sub @ post = sub @ zs" by simp
    have "sub = butlast sub @ [last sub]" using assms(2) by simp
    have "take (length sub) (drop i pre @ butlast sub @ [last sub] @ post) = sub"
      using eq \<open>sub = butlast sub @ [last sub]\<close>
      by (metis append.assoc append_eq_conv_conj)
    moreover have "length sub \<le> length (drop i pre @ butlast sub)"
      using lt assms(2) by (simp add: Suc_leI)
    ultimately have "take (length sub) (drop i pre @ butlast sub) = sub"
      by (metis append.assoc take_append diff_is_0_eq take_0 append_Nil2)
    then have "prefix sub (drop i pre @ butlast sub)"
      by (metis take_is_prefix)
    then have "prefix sub (drop i (pre @ butlast sub))" using lt by simp
    then have "sublist sub (pre @ butlast sub)"
      using sublist_iff_prefix_drop [of sub "pre @ butlast sub"] lt
      by (metis drop_all nat_le_linear)
    with assms(1) show False by blast
  qed
  ultimately show ?thesis using i by simp
qed











section \<open>The response sanitizer\<close>

text \<open>
  Claim C8. When the marker \<open></think>\<close> occurs in the reply, the sanitizer returns what
  follows its first occurrence, stripped of white space at both ends; when the marker does
  not occur, the reply is returned unchanged. The sanitizer is a total function: it has no
  failing branch.
\<close>

theorem sanitizer_marker:
  "(\<not> sublist think_end (pre @ butlast think_end) \<longrightarrow>
      extract_actual_response (pre @ think_end @ post) = strip post) \<and>
   (\<not> sublist think_end s \<longrightarrow> extract_actual_response s = s)"
proof (intro conjI impI)
  assume first: "\<not> sublist think_end (pre @ butlast think_end)"
  have ne: "think_end \<noteq> []" by (simp add: think_end_def ascii_def)
  have len: "length think_end = 8" by (simp add: think_end_def ascii_def)
  have f: "find_str think_end (pre @ think_end @ post) = Some (length pre)"
    using first ne by (rule find_str_first)
  then have "contains think_end (pre @ think_end @ post)" by (simp add: contains_def)
  with f len show "extract_actual_response (pre @ think_end @ post) = strip post"
    by (simp add: extract_actual_response_def slice_from_def)
next
  assume "\<not> sublist think_end s"
  then have "\<not> contains think_end s" by (simp add: contains_iff_sublist)
  then show "extract_actual_response s = s" by (simp add: extract_actual_response_def)
qed

theorem sanitizer_marker_witness:
  "\<not> sublist think_end (ascii ''some reasoning'' @ butlast think_end) \<and>
   extract_actual_response (ascii ''some reasoning</think> final answer'') = ascii ''final answer'' \<and>
   \<not> sublist think_end (ascii ''plain answer'') \<and>
   extract_actual_response (ascii ''plain answer'') = ascii ''plain answer''"
proof -
  have h1: "\<not> sublist think_end (ascii ''some reasoning'' @ butlast think_end)"
    unfolding contains_iff_sublist [symmetric]
    by (simp add: contains_def think_end_def ascii_def)
  have h2: "\<not> sublist think_end (ascii ''plain answer'')"
    unfolding contains_iff_sublist [symmetric]
    by (simp add: contains_def think_end_def ascii_def)
  have e: "ascii ''some reasoning</think> final answer'' =
           ascii ''some reasoning'' @ think_end @ ascii '' final answer''"
    by (simp add: think_end_def ascii_def)
  have s: "strip (ascii '' final answer'') = ascii ''final answer''"
    by (simp add: strip_def ascii_def isspace_def)
  show ?thesis
    using sanitizer_marker [of "ascii ''some reasoning''" "ascii '' final answer''" "ascii ''plain answer''"]
      h1 h2 by (simp only: e s simp_thms)
qed

section \<open>The word-budget truncator\<close>





section \<open>Model selection\<close>

lemma first_preferred_Some:
  "first_preferred ps models = Some p \<longleftrightarrow>
     (\<exists>i<length ps. ps ! i = p \<and> p \<in> set models \<and> (\<forall>j<i. ps ! j \<notin> set models))"
proof (induction ps)
  case Nil
  then show ?case by simp
next
  case (Cons q qs)
  show ?case
  proof (cases "q \<in> set models")
    case True
    have "(\<exists>i<length (q # qs). (q # qs) ! i = p \<and> p \<in> set models \<and>
             (\<forall>j<i. (q # qs) ! j \<notin> set models)) \<longleftrightarrow> q = p"
    proof
      assume "\<exists>i<length (q # qs). (q # qs) ! i = p \<and> p \<in> set models \<and>
                (\<forall>j<i. (q # qs) ! j \<notin> set models)"
      then obtain i where i: "(q # qs) ! i = p" "\<forall>j<i. (q # qs) ! j \<notin> set models" by blast
      from i(2) True have "i = 0" by (cases i) auto
      with i(1) show "q = p" by simp
    next
      assume "q = p"
      with True show "\<exists>i<length (q # qs). (q # qs) ! i = p \<and> p \<in> set models \<and>
                (\<forall>j<i. (q # qs) ! j \<notin> set models)"
        by (intro exI [of _ 0]) simp
    qed
    with True show ?thesis by simp
  next
    case False
    have "(\<exists>i<length (q # qs). (q # qs) ! i = p \<and> p \<in> set models \<and>
             (\<forall>j<i. (q # qs) ! j \<notin> set models)) \<longleftrightarrow>
          (\<exists>i<length qs. qs ! i = p \<and> p \<in> set models \<and> (\<forall>j<i. qs ! j \<notin> set models))"
      (is "?L \<longleftrightarrow> ?R")
    proof
      assume ?L
      then obtain i where i: "i < length (q # qs)" "(q # qs) ! i = p" "p \<in> set models"
        "\<forall>j<i. (q # qs) ! j \<notin> set models" by blast
      from i(2,3) False obtain k where k: "i = Suc k" by (cases i) auto
      have "\<forall>j<k. qs ! j \<notin> set models"
      proof (intro allI impI)
        fix j assume "j < k"
        then have "Suc j < i" using k by simp
        with i(4) have "(q # qs) ! Suc j \<notin> set models" by blast
        then show "qs ! j \<notin> set models" by simp
      qed
      with i k show ?R by (intro exI [of _ k]) simp
    next
      assume ?R
      then obtain k where k: "k < length qs" "qs ! k = p" "p \<in> set models"
        "\<forall>j<k. qs ! j \<notin> set models" by blast
      have "\<forall>j<Suc k. (q # qs) ! j \<notin> set models"
      proof (intro allI impI)
        fix j assume "j < Suc k"
        then show "(q # qs) ! j \<notin> set models" using False k(4) by (cases j) auto
      qed
      with k show ?L by (intro exI [of _ "Suc k"]) simp
    qed
    with False Cons.IH show ?thesis by simp
  qed
qed

lemma first_preferred_None:
  "first_preferred ps models = None \<longleftrightarrow> (\<forall>p\<in>set ps. p \<notin> set models)"
  by (induction ps) auto

lemma preferred_nonempty: "p \<in> set preferred_models \<Longrightarrow> p \<noteq> []"
  by (auto simp: preferred_models_def ascii_def)

lemma get_response_request:
  assumes "models_endpoint env = ModelsData models" "select_model models = Some m"
  shows "trace (snd (snd (get_response env self inp w))) =
           trace w @ [HttpGet (base_url self @ ascii ''models''),
                      HttpPost (base_url self @ ascii ''chat/completions'') m
                        (conversation_history self @ [\<lparr>role = User, content = inp\<rparr>])]"
proof -
  have "first_preferred preferred_models [] = None"
    by (simp add: first_preferred_None)
  with assms(2) have "models \<noteq> []"
    by (auto simp: select_model_def index_def Let_def split: if_splits)
  with assms show ?thesis
    by (simp add: get_response_def get_available_models_def log_event_def Let_def
             split: completion_reply.splits option.splits)
qed

text \<open>
  Claim C4. For a catalog that is not empty, the model selected is the first entry of the
  preference list \<open>['llama3.1-70b', 'llama-3.3-70b', 'llama3.1-8b']\<close> that occurs in
  the catalog, and the first entry of the catalog when no preference occurs in it; the
  completion request of \<open>get_response\<close> carries the model so selected.
\<close>

theorem model_selection:
  assumes "models \<noteq> []"
  shows "((\<exists>i<length preferred_models.
             preferred_models ! i \<in> set models \<and>
             (\<forall>j<i. preferred_models ! j \<notin> set models) \<and>
             select_model models = Some (preferred_models ! i)) \<or>
          ((\<forall>p\<in>set preferred_models. p \<notin> set models) \<and>
             select_model models = Some (hd models))) \<and>
         (models_endpoint env = ModelsData models \<longrightarrow>
            (\<exists>m. select_model models = Some m \<and>
                 trace (snd (snd (get_response env self inp w))) =
                   trace w @ [HttpGet (base_url self @ ascii ''models''),
                              HttpPost (base_url self @ ascii ''chat/completions'') m
                                (conversation_history self @ [\<lparr>role = User, content = inp\<rparr>])]))"
proof -
  have sel: "(\<exists>i<length preferred_models.
             preferred_models ! i \<in> set models \<and>
             (\<forall>j<i. preferred_models ! j \<notin> set models) \<and>
             select_model models = Some (preferred_models ! i)) \<or>
          ((\<forall>p\<in>set preferred_models. p \<notin> set models) \<and>
             select_model models = Some (hd models))"
  proof (cases "first_preferred preferred_models models")
    case None
    then have none: "\<forall>p\<in>set preferred_models. p \<notin> set models"
      by (simp add: first_preferred_None)
    from assms have "index models 0 = Some (hd models)"
      by (cases models) (auto simp: index_def)
    with None none show ?thesis by (simp add: select_model_def)
  next
    case (Some p)
    then obtain i where i: "i < length preferred_models" "preferred_models ! i = p"
      "p \<in> set models" "\<forall>j<i. preferred_models ! j \<notin> set models"
      unfolding first_preferred_Some by blast
    from i(1,2) have "p \<in> set preferred_models" by auto
    then have "p \<noteq> []" by (rule preferred_nonempty)
    with Some have "select_model models = Some p" by (simp add: select_model_def)
    with i show ?thesis by blast
  qed
  then obtain m where m: "select_model models = Some m" by blast
  have "models_endpoint env = ModelsData models \<longrightarrow>
            (\<exists>m. select_model models = Some m \<and>
                 trace (snd (snd (get_response env self inp w))) =
                   trace w @ [HttpGet (base_url self @ ascii ''models''),
                              HttpPost (base_url self @ ascii ''chat/completions'') m
                                (conversation_history self @ [\<lparr>role = User, content = inp\<rparr>])])"
    using m get_response_request [of env models m self inp w] by blast
  with sel show ?thesis by blast
qed

theorem model_selection_witness:
  "[ascii ''modelA'', ascii ''llama-3.3-70b'', ascii ''modelB''] \<noteq> [] \<and>
   select_model [ascii ''modelA'', ascii ''llama-3.3-70b'', ascii ''modelB''] =
     Some (ascii ''llama-3.3-70b'') \<and>
   select_model [ascii ''modelA'', ascii ''modelB''] = Some (ascii ''modelA'')"
proof -
  let ?c = "[ascii ''modelA'', ascii ''llama-3.3-70b'', ascii ''modelB'']"
  have h: "?c \<noteq> []" by simp
  have a: "select_model ?c = Some (ascii ''llama-3.3-70b'')"
    by (simp add: select_model_def preferred_models_def ascii_def)
  have b: "select_model [ascii ''modelA'', ascii ''modelB''] = Some (ascii ''modelA'')"
    by (simp add: select_model_def preferred_models_def ascii_def index_def)
  show ?thesis
    using model_selection [OF h] a b by simp
qed

section \<open>The completion request\<close>

text \<open>
  Claim C5. When the catalog is empty, because the request for it failed, its decoding
  failed or the endpoint listed no model, \<open>get_response\<close> takes the no-models branch
  and returns \<open>None\<close>, and the only request sent is the one for the catalog: no
  chat-completion request is issued. \<open>summarize_pdf_with_cerebras\<close> then fails.
\<close>

theorem empty_catalog_no_completion:
  assumes "models_endpoint env = ModelsNetworkFailure \<or> models_endpoint env = ModelsParseFailure \<or>
           models_endpoint env = ModelsData []"
  shows "get_response env self inp w =
           (NoModels,
            self\<lparr>conversation_history := conversation_history self @ [\<lparr>role = User, content = inp\<rparr>]\<rparr>,
            w\<lparr>trace := trace w @ [HttpGet (base_url self @ ascii ''models'')]\<rparr>) \<and>
         (50 \<le> length (strip pdf_text) \<longrightarrow>
            (\<exists>llm. summarize_pdf_with_cerebras env pdf_text max_words w =
               (GenerationFailed, Some llm,
                w\<lparr>trace := trace w @ [HttpGet (CEREBRAS_BASE_URL @ ascii ''models'')]\<rparr>)))"
proof -
  have g: "get_response env s i w =
           (NoModels,
            s\<lparr>conversation_history := conversation_history s @ [\<lparr>role = User, content = i\<rparr>]\<rparr>,
            w\<lparr>trace := trace w @ [HttpGet (base_url s @ ascii ''models'')]\<rparr>)" for s i
    using assms
    by (auto simp: get_response_def get_available_models_def log_event_def Let_def)
  have "50 \<le> length (strip pdf_text) \<longrightarrow>
            (\<exists>llm. summarize_pdf_with_cerebras env pdf_text max_words w =
               (GenerationFailed, Some llm,
                w\<lparr>trace := trace w @ [HttpGet (CEREBRAS_BASE_URL @ ascii ''models'')]\<rparr>))"
  proof
    assume len: "50 \<le> length (strip pdf_text)"
    then have "pdf_text \<noteq> []" by (auto simp: strip_def)
    with len show "\<exists>llm. summarize_pdf_with_cerebras env pdf_text max_words w =
               (GenerationFailed, Some llm,
                w\<lparr>trace := trace w @ [HttpGet (CEREBRAS_BASE_URL @ ascii ''models'')]\<rparr>)"
      by (simp add: summarize_pdf_with_cerebras_def g Let_def new_CerebrasLLM_def
            reset_conversation_def)
  qed
  with g show ?thesis by blast
qed

theorem empty_catalog_no_completion_witness:
  "get_response offline_env (new_CerebrasLLM [] []) (ascii ''hello'') empty_world =
     (NoModels,
      (new_CerebrasLLM [] [])\<lparr>conversation_history :=
         [\<lparr>role = System, content = []\<rparr>, \<lparr>role = User, content = ascii ''hello''\<rparr>]\<rparr>,
      empty_world\<lparr>trace := [HttpGet (CEREBRAS_BASE_URL @ ascii ''models'')]\<rparr>)"
proof -
  have h: "models_endpoint offline_env = ModelsNetworkFailure \<or>
           models_endpoint offline_env = ModelsParseFailure \<or>
           models_endpoint offline_env = ModelsData []"
    by (simp add: offline_env_def)
  show ?thesis
    using empty_catalog_no_completion [OF h, of "new_CerebrasLLM [] []" "ascii ''hello''" empty_world]
    by (simp add: new_CerebrasLLM_def reset_conversation_def empty_world_def)
qed

text \<open>
  Claim C6. When the completion request raises or is answered with a status other than
  200, \<open>get_response\<close> returns \<open>None\<close> and the history afterwards is the prior history
  with the new user turn appended and nothing else: no assistant turn is added.
\<close>

theorem completion_failure_keeps_history:
  assumes "models_endpoint env = ModelsData models" and "select_model models = Some m"
    and "completions_endpoint env m (conversation_history self @ [\<lparr>role = User, content = inp\<rparr>]) = reply"
    and "reply = CompletionNetworkFailure \<or> (\<exists>status body. reply = CompletionResponse status body \<and> status \<noteq> 200)"
  shows "completion_value (fst (get_response env self inp w)) = None \<and>
         conversation_history (fst (snd (get_response env self inp w))) =
           conversation_history self @ [\<lparr>role = User, content = inp\<rparr>]"
proof -
  have "first_preferred preferred_models [] = None"
    by (simp add: first_preferred_None)
  with assms(2) have "models \<noteq> []"
    by (auto simp: select_model_def index_def Let_def split: if_splits)
  with assms show ?thesis
    by (auto simp: get_response_def get_available_models_def Let_def)
qed

theorem completion_failure_keeps_history_witness:
  "completion_value (fst (get_response
       (offline_env\<lparr>models_endpoint := ModelsData [ascii ''modelA''],
                    completions_endpoint := (\<lambda>_ _. CompletionResponse 500 InvalidJson)\<rparr>)
       (new_CerebrasLLM [] (ascii ''sys'')) (ascii ''hello'') empty_world)) = None \<and>
   conversation_history (fst (snd (get_response
       (offline_env\<lparr>models_endpoint := ModelsData [ascii ''modelA''],
                    completions_endpoint := (\<lambda>_ _. CompletionResponse 500 InvalidJson)\<rparr>)
       (new_CerebrasLLM [] (ascii ''sys'')) (ascii ''hello'') empty_world))) =
     [\<lparr>role = System, content = ascii ''sys''\<rparr>, \<lparr>role = User, content = ascii ''hello''\<rparr>]"
proof -
  let ?env = "offline_env\<lparr>models_endpoint := ModelsData [ascii ''modelA''],
                    completions_endpoint := (\<lambda>_ _. CompletionResponse 500 InvalidJson)\<rparr>"
  let ?llm = "new_CerebrasLLM [] (ascii ''sys'')"
  have h1: "models_endpoint ?env = ModelsData [ascii ''modelA'']" by simp
  have h2: "select_model [ascii ''modelA''] = Some (ascii ''modelA'')"
    by (simp add: select_model_def preferred_models_def ascii_def index_def)
  have h3: "completions_endpoint ?env (ascii ''modelA'')
              (conversation_history ?llm @ [\<lparr>role = User, content = ascii ''hello''\<rparr>]) =
            CompletionResponse 500 InvalidJson" by simp
  have h4: "CompletionResponse 500 InvalidJson = CompletionNetworkFailure \<or>
            (\<exists>status body. CompletionResponse 500 InvalidJson = CompletionResponse status body \<and> status \<noteq> 200)"
    by simp
  have hist: "conversation_history ?llm = [\<lparr>role = System, content = ascii ''sys''\<rparr>]"
    by (simp add: new_CerebrasLLM_def reset_conversation_def)
  show ?thesis
    using completion_failure_keeps_history [OF h1 h2 h3 h4, of empty_world]
    by (simp only: hist append_Cons append_Nil)
qed

section \<open>The summarization guard and the prompt\<close>

text \<open>
  Claim C10. A text whose stripped length is below 50 makes
  \<open>summarize_pdf_with_cerebras\<close> return \<open>None\<close> at once: no session object is created
  and the world, with its trace of requests, is unchanged. A text of 10 to 49 characters is
  accepted by \<open>extract_text_with_pdfminer\<close> and rejected here.
\<close>

theorem short_text_rejected:
  assumes "length (strip pdf_text) < 50"
  shows "summarize_pdf_with_cerebras env pdf_text max_words w = (TextTooShort, None, w) \<and>
         summary_value (fst (summarize_pdf_with_cerebras env pdf_text max_words w)) = None"
  using assms by (simp add: summarize_pdf_with_cerebras_def)

theorem short_text_rejected_witness:
  "length (strip (ascii ''abcdefghij'')) < 50 \<and>
   summarize_pdf_with_cerebras (offline_env\<lparr>models_endpoint := ModelsData [ascii ''modelA'']\<rparr>)
     (ascii ''abcdefghij'') 150 empty_world = (TextTooShort, None, empty_world) \<and>
   fst (extract_text_with_pdfminer (offline_env\<lparr>pdfminer := (\<lambda>_. Some (ascii ''abcdefghij''))\<rparr>)
          (ascii ''a.pdf'') (empty_world\<lparr>files := [ascii ''a.pdf'' \<mapsto> [1]]\<rparr>)) =
     Extracted (ascii ''abcdefghij'')"
proof -
  have s: "strip (ascii ''abcdefghij'') = ascii ''abcdefghij''"
    by (simp add: strip_def ascii_def isspace_def)
  have h: "length (strip (ascii ''abcdefghij'')) < 50"
    by (simp add: s) (simp add: ascii_def)
  have r: "remove_nulls (ascii ''abcdefghij'') = ascii ''abcdefghij''"
    by (simp add: remove_nulls_def ascii_def)
  have l: "length (ascii ''abcdefghij'') = 10" by (simp add: ascii_def)
  have e: "fst (extract_text_with_pdfminer (offline_env\<lparr>pdfminer := (\<lambda>_. Some (ascii ''abcdefghij''))\<rparr>)
          (ascii ''a.pdf'') (empty_world\<lparr>files := [ascii ''a.pdf'' \<mapsto> [1]]\<rparr>)) =
     Extracted (ascii ''abcdefghij'')"
    by (simp add: extract_text_with_pdfminer_def path_exists_def getsize_def Let_def r s l)
  show ?thesis
    using short_text_rejected [OF h] h e by simp
qed

lemma strip_unchanged:
  assumes "s \<noteq> []" "\<not> isspace (hd s)" "\<not> isspace (last s)"
  shows "strip s = s"
proof -
  from assms(1,2) have a: "dropWhile isspace s = s" by (cases s) auto
  from assms(1) have "rev s \<noteq> []" by simp
  moreover from assms(1,3) have "\<not> isspace (hd (rev s))" by (simp add: hd_rev)
  ultimately have "dropWhile isspace (rev s) = rev s" by (cases "rev s") auto
  with a show ?thesis by (simp add: strip_def)
qed

lemma select_model_defined: "models \<noteq> [] \<Longrightarrow> \<exists>m. select_model models = Some m"
  by (cases models) (auto simp: select_model_def index_def Let_def)

lemma clip_document_long:
  "length pdf_text > 8000 \<Longrightarrow> clip_document pdf_text = take 8000 pdf_text"
  by (simp add: clip_document_def max_chars_def slice_to_def)

lemma clip_document_short:
  "length pdf_text \<le> 8000 \<Longrightarrow> clip_document pdf_text = pdf_text"
  by (simp add: clip_document_def max_chars_def)

lemma get_response_history:
  "take (Suc (length (conversation_history self)))
     (conversation_history (fst (snd (get_response env self inp w)))) =
   conversation_history self @ [\<lparr>role = User, content = inp\<rparr>]"
  by (simp add: get_response_def get_available_models_def Let_def
        split: models_reply.splits option.splits completion_reply.splits)

lemma summarize_session:
  assumes "50 \<le> length (strip pdf_text)"
  shows "\<exists>llm. fst (snd (summarize_pdf_with_cerebras env pdf_text max_words w)) = Some llm \<and>
           take 2 (conversation_history llm) =
             [\<lparr>role = System, content = summarization_system_prompt\<rparr>,
              \<lparr>role = User,
               content = prompt_head max_words @ clip_document pdf_text @ prompt_tail\<rparr>]"
proof -
  from assms have ne: "pdf_text \<noteq> []"
    by (auto simp: strip_def)
  let ?llm = "new_CerebrasLLM (credential env) summarization_system_prompt"
  let ?p = "user_prompt max_words (clip_document pdf_text)"
  have h: "conversation_history ?llm = [\<lparr>role = System, content = summarization_system_prompt\<rparr>]"
    by (simp add: new_CerebrasLLM_def reset_conversation_def)
  have t: "fst (snd (summarize_pdf_with_cerebras env pdf_text max_words w)) =
           Some (fst (snd (get_response env ?llm ?p w)))"
    using assms ne
    by (simp add: summarize_pdf_with_cerebras_def Let_def split: prod.splits option.splits)
  have "take 2 (conversation_history (fst (snd (get_response env ?llm ?p w)))) =
        conversation_history ?llm @ [\<lparr>role = User, content = ?p\<rparr>]"
    using get_response_history [of ?llm env ?p w] by (simp add: h numeral_2_eq_2)
  with t show ?thesis
    by (simp add: h user_prompt_def)
qed

lemma clip_document_ref_keeps:
  assumes "index h r = Some text"
  shows "\<exists>r' h'. clip_document_ref r h = Some (r', h') \<and> index h' r = Some text \<and>
           index h' r' = Some (clip_document text) \<and> take (length h) h' = h"
proof -
  from assms have r: "r < length h" and t: "h ! r = text"
    by (auto simp: index_def split: if_splits)
  show ?thesis
  proof (cases "length text > max_chars")
    case True
    with assms r t show ?thesis
      by (simp add: clip_document_ref_def clip_document_def index_def nth_append)
  next
    case False
    with assms show ?thesis
      by (simp add: clip_document_ref_def clip_document_def)
  qed
qed

text \<open>
  Claim C7, amended. For a document text that passes the guard of the summarizer, a
  stripped length of at least 50: the user turn of the session is the instructions, the
  clipped text and the closing line, where a text longer than 8000 characters is clipped
  to its first 8000 characters and a text of at most 8000 characters is not changed; with
  a catalog that is not empty this user turn is sent in the completion request. The
  clipping allocates a new string and rebinds the local name: the caller's string object
  is the same before and after.
\<close>

theorem document_clipping:
  "(length pdf_text > 8000 \<longrightarrow>
      clip_document pdf_text = take 8000 pdf_text \<and> length (clip_document pdf_text) = 8000) \<and>
   (length pdf_text \<le> 8000 \<longrightarrow> clip_document pdf_text = pdf_text) \<and>
   (50 \<le> length (strip pdf_text) \<longrightarrow>
      (\<exists>llm. fst (snd (summarize_pdf_with_cerebras env pdf_text max_words w)) = Some llm \<and>
         take 2 (conversation_history llm) =
           [\<lparr>role = System, content = summarization_system_prompt\<rparr>,
            \<lparr>role = User,
             content = prompt_head max_words @ clip_document pdf_text @ prompt_tail\<rparr>])) \<and>
   (50 \<le> length (strip pdf_text) \<longrightarrow> models_endpoint env = ModelsData models \<longrightarrow> models \<noteq> [] \<longrightarrow>
      (\<exists>m. trace (snd (snd (summarize_pdf_with_cerebras env pdf_text max_words w))) =
             trace w @
               [HttpGet (CEREBRAS_BASE_URL @ ascii ''models''),
                HttpPost (CEREBRAS_BASE_URL @ ascii ''chat/completions'') m
                  [\<lparr>role = System, content = summarization_system_prompt\<rparr>,
                   \<lparr>role = User,
                    content = prompt_head max_words @ clip_document pdf_text @ prompt_tail\<rparr>]])) \<and>
   (index h r = Some pdf_text \<longrightarrow>
      (\<exists>r' h'. clip_document_ref r h = Some (r', h') \<and> index h' r = Some pdf_text \<and>
         index h' r' = Some (clip_document pdf_text) \<and> take (length h) h' = h))"
proof (intro conjI impI)
  assume "length pdf_text > 8000"
  then show "clip_document pdf_text = take 8000 pdf_text"
    by (rule clip_document_long)
next
  assume "length pdf_text > 8000"
  then show "length (clip_document pdf_text) = 8000"
    by (simp add: clip_document_long)
next
  assume "length pdf_text \<le> 8000"
  then show "clip_document pdf_text = pdf_text"
    by (rule clip_document_short)
next
  assume "50 \<le> length (strip pdf_text)"
  then show "\<exists>llm. fst (snd (summarize_pdf_with_cerebras env pdf_text max_words w)) = Some llm \<and>
         take 2 (conversation_history llm) =
           [\<lparr>role = System, content = summarization_system_prompt\<rparr>,
            \<lparr>role = User,
             content = prompt_head max_words @ clip_document pdf_text @ prompt_tail\<rparr>]"
    by (rule summarize_session)
next
  assume len: "50 \<le> length (strip pdf_text)"
    and cat: "models_endpoint env = ModelsData models" and ne: "models \<noteq> []"
  from len have ne_text: "pdf_text \<noteq> []"
    by (auto simp: strip_def)
  from select_model_defined [OF ne] obtain m where m: "select_model models = Some m"
    by blast
  let ?llm = "new_CerebrasLLM (credential env) summarization_system_prompt"
  let ?p = "user_prompt max_words (clip_document pdf_text)"
  have t: "snd (snd (summarize_pdf_with_cerebras env pdf_text max_words w)) =
           snd (snd (get_response env ?llm ?p w))"
    using len ne_text
    by (simp add: summarize_pdf_with_cerebras_def Let_def split: prod.splits option.splits)
  have "trace (snd (snd (get_response env ?llm ?p w))) =
          trace w @ [HttpGet (base_url ?llm @ ascii ''models''),
                     HttpPost (base_url ?llm @ ascii ''chat/completions'') m
                       (conversation_history ?llm @ [\<lparr>role = User, content = ?p\<rparr>])]"
    using cat m by (rule get_response_request)
  then have "trace (snd (snd (summarize_pdf_with_cerebras env pdf_text max_words w))) =
             trace w @
               [HttpGet (CEREBRAS_BASE_URL @ ascii ''models''),
                HttpPost (CEREBRAS_BASE_URL @ ascii ''chat/completions'') m
                  [\<lparr>role = System, content = summarization_system_prompt\<rparr>,
                   \<lparr>role = User,
                    content = prompt_head max_words @ clip_document pdf_text @ prompt_tail\<rparr>]]"
    by (simp add: t new_CerebrasLLM_def reset_conversation_def user_prompt_def)
  then show "\<exists>m. trace (snd (snd (summarize_pdf_with_cerebras env pdf_text max_words w))) =
             trace w @
               [HttpGet (CEREBRAS_BASE_URL @ ascii ''models''),
                HttpPost (CEREBRAS_BASE_URL @ ascii ''chat/completions'') m
                  [\<lparr>role = System, content = summarization_system_prompt\<rparr>,
                   \<lparr>role = User,
                    content = prompt_head max_words @ clip_document pdf_text @ prompt_tail\<rparr>]]"
    by blast
next
  assume "index h r = Some pdf_text"
  then show "\<exists>r' h'. clip_document_ref r h = Some (r', h') \<and> index h' r = Some pdf_text \<and>
         index h' r' = Some (clip_document pdf_text) \<and> take (length h) h' = h"
    by (rule clip_document_ref_keeps)
qed

theorem document_clipping_witness:
  "length (replicate 9000 (97::nat)) > 8000 \<and>
   clip_document (replicate 9000 97) = replicate 8000 97 \<and>
   length (clip_document (replicate 9000 97)) = 8000 \<and>
   clip_document (replicate 60 97) = replicate 60 97 \<and>
   50 \<le> length (strip (replicate 9000 97)) \<and>
   (\<exists>llm. fst (snd (summarize_pdf_with_cerebras
              (offline_env\<lparr>models_endpoint := ModelsData [ascii ''modelA'']\<rparr>)
              (replicate 9000 97) 150 empty_world)) = Some llm \<and>
      take 2 (conversation_history llm) =
        [\<lparr>role = System, content = summarization_system_prompt\<rparr>,
         \<lparr>role = User, content = prompt_head 150 @ replicate 8000 97 @ prompt_tail\<rparr>]) \<and>
   (\<exists>m. trace (snd (snd (summarize_pdf_with_cerebras
            (offline_env\<lparr>models_endpoint := ModelsData [ascii ''modelA'']\<rparr>)
            (replicate 9000 97) 150 empty_world))) =
         trace empty_world @
           [HttpGet (CEREBRAS_BASE_URL @ ascii ''models''),
            HttpPost (CEREBRAS_BASE_URL @ ascii ''chat/completions'') m
              [\<lparr>role = System, content = summarization_system_prompt\<rparr>,
               \<lparr>role = User, content = prompt_head 150 @ replicate 8000 97 @ prompt_tail\<rparr>]]) \<and>
   (\<exists>r' h'. clip_document_ref 0 [replicate 9000 97] = Some (r', h') \<and>
      index h' 0 = Some (replicate 9000 97) \<and> index h' r' = Some (replicate 8000 97))"
proof -
  let ?env = "offline_env\<lparr>models_endpoint := ModelsData [ascii ''modelA'']\<rparr>"
  have l: "length (replicate 9000 (97::nat)) > 8000"
    by simp
  have l60: "length (replicate 60 (97::nat)) \<le> 8000"
    by simp
  have "strip (replicate 9000 97) = replicate 9000 97"
    by (rule strip_unchanged) (simp_all add: isspace_def)
  then have s: "50 \<le> length (strip (replicate 9000 97))"
    by simp
  have c: "models_endpoint ?env = ModelsData [ascii ''modelA'']"
    by simp
  have n: "[ascii ''modelA''] \<noteq> []"
    by simp
  have tk: "take 8000 (replicate 9000 (97::nat)) = replicate 8000 97"
    by simp
  have ix: "index [replicate 9000 (97::nat)] 0 = Some (replicate 9000 97)"
    by (simp add: index_def)
  note inst = document_clipping [of "replicate 9000 97" ?env 150 empty_world "[ascii ''modelA'']"
      "[replicate 9000 97]" 0]
  from inst l tk have a: "clip_document (replicate 9000 97) = replicate 8000 97"
    by simp
  from inst l have b: "length (clip_document (replicate 9000 97)) = 8000"
    by blast
  from inst s
  have g: "\<exists>llm. fst (snd (summarize_pdf_with_cerebras ?env (replicate 9000 97) 150 empty_world)) =
             Some llm \<and>
           take 2 (conversation_history llm) =
             [\<lparr>role = System, content = summarization_system_prompt\<rparr>,
              \<lparr>role = User,
               content = prompt_head 150 @ clip_document (replicate 9000 97) @ prompt_tail\<rparr>]"
    by blast
  from inst s c n
  have d: "\<exists>m. trace (snd (snd (summarize_pdf_with_cerebras ?env (replicate 9000 97) 150 empty_world))) =
         trace empty_world @
           [HttpGet (CEREBRAS_BASE_URL @ ascii ''models''),
            HttpPost (CEREBRAS_BASE_URL @ ascii ''chat/completions'') m
              [\<lparr>role = System, content = summarization_system_prompt\<rparr>,
               \<lparr>role = User, content = prompt_head 150 @ clip_document (replicate 9000 97) @ prompt_tail\<rparr>]]"
    by blast
  from inst ix
  have k: "\<exists>r' h'. clip_document_ref 0 [replicate 9000 97] = Some (r', h') \<and>
      index h' 0 = Some (replicate 9000 97) \<and> index h' r' = Some (clip_document (replicate 9000 97))"
    by blast
  from document_clipping [of "replicate 60 97"] l60
  have e: "clip_document (replicate 60 97) = replicate 60 97"
    by simp
  from l a b e s g d k show ?thesis
    by (simp only: a)
qed

text \<open>
  A text that the extractor accepts and that is shorter than 50 characters is not embedded
  in any prompt, although the catalog and the completion endpoint would answer: the
  summarizer returns at its guard, creates no session and sends nothing.
\<close>

theorem document_clipping_counterexample:
  "length (ascii ''abcdefghij'') \<le> 8000 \<and>
   10 \<le> length (strip (remove_nulls (ascii ''abcdefghij''))) \<and>
   summarize_pdf_with_cerebras
     (offline_env\<lparr>models_endpoint := ModelsData [ascii ''modelA''],
                  completions_endpoint :=
                    (\<lambda>_ _. CompletionResponse 200
                       (CompletionJson (Some [ChoiceJson (Some (Some (ascii ''A summary.'')))])))\<rparr>)
     (ascii ''abcdefghij'') 150 empty_world =
     (TextTooShort, None, empty_world)"
proof -
  have s: "strip (ascii ''abcdefghij'') = ascii ''abcdefghij''"
    by (simp add: strip_def ascii_def isspace_def)
  have r: "remove_nulls (ascii ''abcdefghij'') = ascii ''abcdefghij''"
    by (simp add: remove_nulls_def ascii_def)
  have l: "length (ascii ''abcdefghij'') = 10"
    by (simp add: ascii_def)
  show ?thesis
    by (simp add: summarize_pdf_with_cerebras_def s r l)
qed

section \<open>Text extraction checks\<close>

text \<open>
  Claim C3. \<open>extract_text_with_pdfminer\<close> checks in this order: a path that does not
  exist fails as not found; a file of size 0 fails as empty, and the extractor is not
  called (the trace is unchanged); an extractor that raises fails as corrupt or protected;
  otherwise null characters are removed and white space is stripped at both ends, and the
  result is accepted exactly when it has at least 10 characters.
\<close>

theorem extraction_checks:
  "(\<not> path_exists w p \<longrightarrow> extract_text_with_pdfminer env p w = (NotFound, w)) \<and>
   (path_exists w p \<longrightarrow> getsize env w p = 0 \<longrightarrow>
      extract_text_with_pdfminer env p w = (EmptyFile, w)) \<and>
   (files w p = Some [] \<longrightarrow> extract_text_with_pdfminer env p w = (EmptyFile, w)) \<and>
   (path_exists w p \<longrightarrow> getsize env w p \<noteq> 0 \<longrightarrow>
      (files w p = None \<or> (\<exists>bs. files w p = Some bs \<and> pdfminer env bs = None)) \<longrightarrow>
      extract_text_with_pdfminer env p w =
        (CorruptOrProtected, w\<lparr>trace := trace w @ [PdfExtract p]\<rparr>)) \<and>
   (files w p = Some bs \<longrightarrow> bs \<noteq> [] \<longrightarrow> pdfminer env bs = Some raw \<longrightarrow>
      extract_text_with_pdfminer env p w =
        (if 10 \<le> length (strip (remove_nulls raw)) then Extracted (strip (remove_nulls raw))
         else TooShort (length (strip (remove_nulls raw))),
         w\<lparr>trace := trace w @ [PdfExtract p]\<rparr>))"
proof (intro conjI impI)
  assume "\<not> path_exists w p"
  then show "extract_text_with_pdfminer env p w = (NotFound, w)"
    by (simp add: extract_text_with_pdfminer_def)
next
  assume "path_exists w p" "getsize env w p = 0"
  then show "extract_text_with_pdfminer env p w = (EmptyFile, w)"
    by (simp add: extract_text_with_pdfminer_def)
next
  assume "files w p = Some []"
  then show "extract_text_with_pdfminer env p w = (EmptyFile, w)"
    by (simp add: extract_text_with_pdfminer_def path_exists_def getsize_def)
next
  assume "path_exists w p" "getsize env w p \<noteq> 0"
    "files w p = None \<or> (\<exists>bs. files w p = Some bs \<and> pdfminer env bs = None)"
  then show "extract_text_with_pdfminer env p w =
        (CorruptOrProtected, w\<lparr>trace := trace w @ [PdfExtract p]\<rparr>)"
    by (auto simp: extract_text_with_pdfminer_def log_event_def Let_def)
next
  assume "files w p = Some bs" "bs \<noteq> []" "pdfminer env bs = Some raw"
  then show "extract_text_with_pdfminer env p w =
        (if 10 \<le> length (strip (remove_nulls raw)) then Extracted (strip (remove_nulls raw))
         else TooShort (length (strip (remove_nulls raw))),
         w\<lparr>trace := trace w @ [PdfExtract p]\<rparr>)"
    by (simp add: extract_text_with_pdfminer_def path_exists_def getsize_def log_event_def
          Let_def)
qed

theorem extraction_checks_witness:
  "extract_text_with_pdfminer stub_env (ascii ''missing.pdf'') stub_world = (NotFound, stub_world) \<and>
   extract_text_with_pdfminer stub_env (ascii ''empty.pdf'') stub_world = (EmptyFile, stub_world) \<and>
   extract_text_with_pdfminer stub_env (ascii ''locked.pdf'') stub_world =
     (CorruptOrProtected, stub_world\<lparr>trace := [PdfExtract (ascii ''locked.pdf'')]\<rparr>) \<and>
   extract_text_with_pdfminer stub_env (ascii ''nine.pdf'') stub_world =
     (TooShort 9, stub_world\<lparr>trace := [PdfExtract (ascii ''nine.pdf'')]\<rparr>) \<and>
   extract_text_with_pdfminer stub_env (ascii ''ten.pdf'') stub_world =
     (Extracted (ascii ''1234567890''), stub_world\<lparr>trace := [PdfExtract (ascii ''ten.pdf'')]\<rparr>)"
proof -
  have names: "ascii ''missing.pdf'' \<noteq> ascii ''empty.pdf''" "ascii ''missing.pdf'' \<noteq> ascii ''locked.pdf''"
    "ascii ''missing.pdf'' \<noteq> ascii ''nine.pdf''" "ascii ''missing.pdf'' \<noteq> ascii ''ten.pdf''"
    "ascii ''empty.pdf'' \<noteq> ascii ''locked.pdf''" "ascii ''empty.pdf'' \<noteq> ascii ''nine.pdf''"
    "ascii ''empty.pdf'' \<noteq> ascii ''ten.pdf''" "ascii ''locked.pdf'' \<noteq> ascii ''nine.pdf''"
    "ascii ''locked.pdf'' \<noteq> ascii ''ten.pdf''" "ascii ''nine.pdf'' \<noteq> ascii ''ten.pdf''"
    by (simp_all add: ascii_def)
  have f0: "files stub_world (ascii ''missing.pdf'') = None"
    and f1: "files stub_world (ascii ''empty.pdf'') = Some []"
    and f2: "files stub_world (ascii ''locked.pdf'') = Some [1]"
    and f3: "files stub_world (ascii ''nine.pdf'') = Some [2]"
    and f4: "files stub_world (ascii ''ten.pdf'') = Some [3]"
    using names by (simp_all add: stub_world_def)
  have d: "dirs stub_world = {}" and t: "trace stub_world = []"
    by (simp_all add: stub_world_def)
  have p1: "pdfminer stub_env [1] = None"
    and p2: "pdfminer stub_env [2] = Some (ascii '' 123456789'' @ [0, 32])"
    and p3: "pdfminer stub_env [3] = Some (0 # ascii '' 1234567890 '')"
    by (simp_all add: stub_env_def)
  have s9: "strip (remove_nulls (ascii '' 123456789'' @ [0, 32])) = ascii ''123456789''"
    by (simp add: strip_def remove_nulls_def ascii_def isspace_def)
  have s10: "strip (remove_nulls (0 # ascii '' 1234567890 '')) = ascii ''1234567890''"
    by (simp add: strip_def remove_nulls_def ascii_def isspace_def)
  have l9: "length (ascii ''123456789'') = 9" and l10: "length (ascii ''1234567890'') = 10"
    by (simp_all add: ascii_def)
  have e0: "\<not> path_exists stub_world (ascii ''missing.pdf'')"
    by (simp add: path_exists_def f0 d)
  have e2: "path_exists stub_world (ascii ''locked.pdf'')"
    by (simp add: path_exists_def f2)
  have g2: "getsize stub_env stub_world (ascii ''locked.pdf'') \<noteq> 0"
    by (simp add: getsize_def f2)
  have a: "extract_text_with_pdfminer stub_env (ascii ''missing.pdf'') stub_world = (NotFound, stub_world)"
    using extraction_checks [of stub_world "ascii ''missing.pdf''" stub_env] e0 by blast
  have b: "extract_text_with_pdfminer stub_env (ascii ''empty.pdf'') stub_world = (EmptyFile, stub_world)"
    using extraction_checks [of stub_world "ascii ''empty.pdf''" stub_env] f1 by blast
  have c: "extract_text_with_pdfminer stub_env (ascii ''locked.pdf'') stub_world =
     (CorruptOrProtected, stub_world\<lparr>trace := [PdfExtract (ascii ''locked.pdf'')]\<rparr>)"
    using extraction_checks [of stub_world "ascii ''locked.pdf''" stub_env] e2 g2 f2 p1
    by (simp add: t)
  have n: "extract_text_with_pdfminer stub_env (ascii ''nine.pdf'') stub_world =
     (TooShort 9, stub_world\<lparr>trace := [PdfExtract (ascii ''nine.pdf'')]\<rparr>)"
    using extraction_checks [of stub_world "ascii ''nine.pdf''" stub_env "[2]" "ascii '' 123456789'' @ [0, 32]"]
      f3 p2 by (simp add: s9 l9 t)
  have m: "extract_text_with_pdfminer stub_env (ascii ''ten.pdf'') stub_world =
     (Extracted (ascii ''1234567890''), stub_world\<lparr>trace := [PdfExtract (ascii ''ten.pdf'')]\<rparr>)"
    using extraction_checks [of stub_world "ascii ''ten.pdf''" stub_env "[3]" "0 # ascii '' 1234567890 ''"]
      f4 p3 by (simp add: s10 l10 t)
  from a b c n m show ?thesis by blast
qed

section \<open>Download\<close>

text \<open>
  Claim C2. When the download is answered with a status other than 200, \<open>download_pdf\<close>
  takes the failed-download branch having done nothing but the GET: files and directories
  are as before, so a file already stored for the owner and title is unchanged. In an
  environment that never answers 200, no run of \<open>download_pdf\<close> creates a directory,
  removes a file or writes one: the removal of a stored file happens only after a status
  200.
\<close>

theorem non_200_touches_nothing:
  "(urlparse env drive_link = Some parsed \<longrightarrow> resolve_file_id parsed = Some (Some file_id) \<longrightarrow>
    file_id \<noteq> [] \<longrightarrow> download_endpoint env (download_url file_id) = DownloadResponse response \<longrightarrow>
    status_code response \<noteq> 200 \<longrightarrow>
      download_pdf env drive_link email title w =
        (DownloadFailed, w\<lparr>trace := trace w @ [HttpGet (download_url file_id)]\<rparr>)) \<and>
   ((\<forall>url r. download_endpoint env url = DownloadResponse r \<longrightarrow> status_code r \<noteq> 200) \<longrightarrow>
      files (snd (download_pdf env drive_link email title w)) = files w \<and>
      dirs (snd (download_pdf env drive_link email title w)) = dirs w \<and>
      (trace (snd (download_pdf env drive_link email title w)) = trace w \<or>
       (\<exists>url. trace (snd (download_pdf env drive_link email title w)) = trace w @ [HttpGet url])))"
proof (intro conjI impI)
  assume "urlparse env drive_link = Some parsed" "resolve_file_id parsed = Some (Some file_id)"
    "file_id \<noteq> []" "download_endpoint env (download_url file_id) = DownloadResponse response"
    "status_code response \<noteq> 200"
  then show "download_pdf env drive_link email title w =
        (DownloadFailed, w\<lparr>trace := trace w @ [HttpGet (download_url file_id)]\<rparr>)"
    by (simp add: download_pdf_def log_event_def Let_def)
next
  assume never: "\<forall>url r. download_endpoint env url = DownloadResponse r \<longrightarrow> status_code r \<noteq> 200"
  let ?w' = "snd (download_pdf env drive_link email title w)"
  have "?w' = w \<or> (\<exists>url. ?w' = w\<lparr>trace := trace w @ [HttpGet url]\<rparr>)"
    using never
    by (auto simp: download_pdf_def log_event_def Let_def
             split: option.splits download_reply.splits)
  then show "files ?w' = files w" and "dirs ?w' = dirs w"
    and "trace ?w' = trace w \<or> (\<exists>url. trace ?w' = trace w @ [HttpGet url])"
    by auto
qed

theorem non_200_touches_nothing_witness:
  "download_pdf (drive_env 404) (ascii ''https://drive.example.com/file/d/XYZ789/view'')
     (ascii ''ann'') (ascii ''paper'') stored_world =
     (DownloadFailed, stored_world\<lparr>trace := [HttpGet (download_url (ascii ''XYZ789''))]\<rparr>) \<and>
   files (snd (download_pdf (drive_env 404) (ascii ''https://drive.example.com/file/d/XYZ789/view'')
     (ascii ''ann'') (ascii ''paper'') stored_world)) (ascii ''researchers/ann/paper.pdf'') = Some [1, 2, 3] \<and>
   files (snd (download_pdf (drive_env 200) (ascii ''https://drive.example.com/file/d/XYZ789/view'')
     (ascii ''ann'') (ascii ''paper'') stored_world)) (ascii ''researchers/ann/paper.pdf'') = Some [7, 8, 9]"
proof -
  let ?link = "ascii ''https://drive.example.com/file/d/XYZ789/view''"
  let ?u = "\<lparr>url_path = ascii ''/file/d/XYZ789/view'', query_params = Map.empty\<rparr>"
  have u: "urlparse (drive_env c) ?link = Some ?u" for c
    by (simp add: drive_env_def)
  have c: "contains (ascii ''/d/'') (ascii ''/file/d/XYZ789/view'')"
    by (simp add: contains_def ascii_def)
  have sp: "split_on 47 (ascii ''/file/d/XYZ789/view'') =
            [[], ascii ''file'', ascii ''d'', ascii ''XYZ789'', ascii ''view'']"
    by (simp add: ascii_def)
  have r: "resolve_file_id ?u = Some (Some (ascii ''XYZ789''))"
    by (simp add: resolve_file_id_def query_id_def falsy_def path_id_def c sp index_def)
  have ne: "ascii ''XYZ789'' \<noteq> []" by (simp add: ascii_def)
  have d: "download_endpoint (drive_env c) url =
           DownloadResponse \<lparr>status_code = c, chunks = [[7], [], [8, 9]], stream_fails = False\<rparr>" for c url
    by (simp add: drive_env_def)
  have s: "status_code \<lparr>status_code = 404, chunks = [[7], [], [8, 9]], stream_fails = False\<rparr> \<noteq> 200"
    by simp
  have f: "files stored_world (ascii ''researchers/ann/paper.pdf'') = Some [1, 2, 3]"
    and t: "trace stored_world = []"
    by (simp_all add: stored_world_def)
  have a: "download_pdf (drive_env 404) ?link (ascii ''ann'') (ascii ''paper'') stored_world =
     (DownloadFailed, stored_world\<lparr>trace := [HttpGet (download_url (ascii ''XYZ789''))]\<rparr>)"
    using non_200_touches_nothing [of "drive_env 404" ?link ?u "ascii ''XYZ789''" _
        "ascii ''ann''" "ascii ''paper''" stored_world] u r ne d [of 404] s
    by (simp add: t)
  have p: "ascii ''researchers/'' @ ascii ''ann'' = ascii ''researchers/ann''"
    "ascii ''paper'' @ ascii ''.pdf'' = ascii ''paper.pdf''"
    "os_path_join (ascii ''researchers/ann'') (ascii ''paper.pdf'') = ascii ''researchers/ann/paper.pdf''"
    by (simp_all add: os_path_join_def ascii_def)
  have neq: "ascii ''researchers/ann'' \<noteq> ascii ''researchers/ann/paper.pdf''"
    by (simp add: ascii_def)
  have os: "os_makedirs (drive_env c) = plain_makedirs" "os_remove (drive_env c) = plain_remove"
    "os_open_wb (drive_env c) = plain_open_wb" "os_write (drive_env c) = plain_write" for c
    by (simp_all add: drive_env_def)
  have b: "files (snd (download_pdf (drive_env 200) ?link (ascii ''ann'') (ascii ''paper'') stored_world))
             (ascii ''researchers/ann/paper.pdf'') = Some [7, 8, 9]"
    using neq
    by (simp add: download_pdf_def u r ne d store_download_def makedirs_def remove_def
          open_wb_def save_file_def os_call_def os path_exists_def log_event_def Let_def p
          plain_makedirs_def plain_remove_def plain_open_wb_def plain_write_def
          stored_world_def)
  from a f b show ?thesis by simp
qed

section \<open>Link resolution\<close>

lemma split_on_no_sep: "sep \<notin> set a \<Longrightarrow> split_on sep a = [a]"
  by (induction a) auto

lemma split_on_append: "sep \<notin> set a \<Longrightarrow> split_on sep (a @ sep # r) = a # split_on sep r"
  by (induction a) auto

lemma split_on_drive_path:
  assumes "47 \<notin> set a" "47 \<notin> set ident" "rest = [] \<or> hd rest = 47"
  shows "index (split_on 47 (47 # a @ ascii ''/d/'' @ ident @ rest)) 3 = Some ident"
proof -
  have d: "ascii ''/d/'' = 47 # [100] @ [47]" by (simp add: ascii_def)
  have "split_on 47 (47 # a @ ascii ''/d/'' @ ident @ rest) =
        [] # split_on 47 (a @ 47 # ([100] @ 47 # (ident @ rest)))"
    by (simp add: d)
  also have "split_on 47 (a @ 47 # ([100] @ 47 # (ident @ rest))) =
             a # split_on 47 ([100] @ 47 # (ident @ rest))"
    using assms(1) by (rule split_on_append)
  also have "split_on 47 ([100] @ 47 # (ident @ rest)) = [100] # split_on 47 (ident @ rest)"
    by (rule split_on_append) simp
  finally have sp: "split_on 47 (47 # a @ ascii ''/d/'' @ ident @ rest) =
                    [] # a # [100] # split_on 47 (ident @ rest)" .
  from assms(3) have "\<exists>tl. split_on 47 (ident @ rest) = ident # tl"
  proof
    assume "rest = []"
    then show ?thesis using assms(2) by (simp add: split_on_no_sep)
  next
    assume h: "hd rest = 47"
    show ?thesis
    proof (cases rest)
      case Nil
      then show ?thesis using assms(2) by (simp add: split_on_no_sep)
    next
      case (Cons c cs)
      with h have "rest = 47 # cs" by simp
      then show ?thesis using split_on_append [OF assms(2), of cs] by simp
    qed
  qed
  then obtain tl where "split_on 47 (ident @ rest) = ident # tl" by blast
  with sp show ?thesis by (simp add: index_def)
qed

text \<open>
  Claim C1, amended. When \<open>parse_qs\<close> gives the parameter \<open>id\<close> a non-empty first
  value, that value is the identifier. Otherwise, when the path contains \<open>/d/\<close>, the
  identifier is the component at index 3 of the path split at \<open>/\<close>: this is the segment
  after \<open>/d/\<close> when \<open>/d/\<close> follows the first segment of the path, as in
  \<open>/file/d/XYZ789/view\<close>. When the path has no such component the resolver fails in the
  exception handler; when the component is empty, or the path does not contain \<open>/d/\<close>,
  it fails with the invalid-link message. No failure sends a request or changes the store.
\<close>

theorem link_resolution:
  "(query_params u (ascii ''id'') = Some (v # vs) \<longrightarrow> v \<noteq> [] \<longrightarrow>
      resolve_file_id u = Some (Some v)) \<and>
   (query_id u = Some file_id \<longrightarrow> falsy file_id \<longrightarrow>
      (sublist (ascii ''/d/'') (url_path u) \<longrightarrow>
         (index (split_on 47 (url_path u)) 3 = Some seg \<longrightarrow> resolve_file_id u = Some (Some seg)) \<and>
         (length (split_on 47 (url_path u)) \<le> 3 \<longrightarrow> resolve_file_id u = None) \<and>
         (url_path u = 47 # a @ ascii ''/d/'' @ ident @ rest \<longrightarrow> 47 \<notin> set a \<longrightarrow>
            47 \<notin> set ident \<longrightarrow> rest = [] \<or> hd rest = 47 \<longrightarrow>
            resolve_file_id u = Some (Some ident))) \<and>
      (\<not> sublist (ascii ''/d/'') (url_path u) \<longrightarrow> resolve_file_id u = Some None)) \<and>
   (urlparse env drive_link = Some u \<longrightarrow>
      (resolve_file_id u = Some None \<or> resolve_file_id u = Some (Some []) \<longrightarrow>
         download_pdf env drive_link email title w = (InvalidLink, w)) \<and>
      (resolve_file_id u = None \<longrightarrow>
         download_pdf env drive_link email title w = (ErrorOccurred, w)))"
proof (intro conjI impI)
  assume "query_params u (ascii ''id'') = Some (v # vs)" "v \<noteq> []"
  then show "resolve_file_id u = Some (Some v)"
    by (simp add: resolve_file_id_def query_id_def index_def falsy_def)
next
  assume q: "query_id u = Some file_id" "falsy file_id"
    and c: "sublist (ascii ''/d/'') (url_path u)"
  from q c have r: "resolve_file_id u = map_option Some (index (split_on 47 (url_path u)) 3)"
    by (simp add: resolve_file_id_def path_id_def contains_iff_sublist)
  {
    assume "index (split_on 47 (url_path u)) 3 = Some seg"
    with r show "resolve_file_id u = Some (Some seg)" by simp
  next
    assume "length (split_on 47 (url_path u)) \<le> 3"
    with r show "resolve_file_id u = None" by (simp add: index_def)
  next
    assume p: "url_path u = 47 # a @ ascii ''/d/'' @ ident @ rest"
      and h: "47 \<notin> set a" "47 \<notin> set ident" "rest = [] \<or> hd rest = 47"
    from h have "index (split_on 47 (url_path u)) 3 = Some ident"
      unfolding p by (rule split_on_drive_path)
    with r show "resolve_file_id u = Some (Some ident)" by simp
  }
next
  assume "query_id u = Some file_id" "falsy file_id"
    "\<not> sublist (ascii ''/d/'') (url_path u)"
  then show "resolve_file_id u = Some None"
    by (simp add: resolve_file_id_def path_id_def contains_iff_sublist)
next
  assume "urlparse env drive_link = Some u"
    "resolve_file_id u = Some None \<or> resolve_file_id u = Some (Some [])"
  then show "download_pdf env drive_link email title w = (InvalidLink, w)"
    by (auto simp: download_pdf_def)
next
  assume "urlparse env drive_link = Some u" "resolve_file_id u = None"
  then show "download_pdf env drive_link email title w = (ErrorOccurred, w)"
    by (simp add: download_pdf_def)
qed

theorem link_resolution_witness:
  "resolve_file_id \<lparr>url_path = ascii ''/open'',
                     query_params = [ascii ''id'' \<mapsto> [ascii ''ABC123'']]\<rparr> =
     Some (Some (ascii ''ABC123'')) \<and>
   resolve_file_id \<lparr>url_path = ascii ''/file/d/XYZ789/view'', query_params = Map.empty\<rparr> =
     Some (Some (ascii ''XYZ789'')) \<and>
   resolve_file_id \<lparr>url_path = ascii ''/d/XYZ'', query_params = Map.empty\<rparr> = None \<and>
   resolve_file_id \<lparr>url_path = ascii ''/folders/abc'', query_params = Map.empty\<rparr> = Some None \<and>
   download_pdf (offline_env\<lparr>urlparse := (\<lambda>_. Some \<lparr>url_path = ascii ''/folders/abc'',
                                                       query_params = Map.empty\<rparr>)\<rparr>)
     (ascii ''https://drive.example.com/folders/abc'') (ascii ''ann'') (ascii ''paper'') stored_world =
     (InvalidLink, stored_world)"
proof -
  let ?u1 = "\<lparr>url_path = ascii ''/open'', query_params = [ascii ''id'' \<mapsto> [ascii ''ABC123'']]\<rparr>"
  let ?u2 = "\<lparr>url_path = ascii ''/file/d/XYZ789/view'', query_params = Map.empty\<rparr>"
  let ?u3 = "\<lparr>url_path = ascii ''/d/XYZ'', query_params = Map.empty\<rparr>"
  let ?u4 = "\<lparr>url_path = ascii ''/folders/abc'', query_params = Map.empty\<rparr>"
  let ?env = "offline_env\<lparr>urlparse := (\<lambda>_. Some ?u4)\<rparr>"
  have q: "query_id \<lparr>url_path = p, query_params = Map.empty\<rparr> = Some None" for p
    by (simp add: query_id_def)
  have fl: "falsy None" by (simp add: falsy_def)
  have a: "resolve_file_id ?u1 = Some (Some (ascii ''ABC123''))"
    using link_resolution [of ?u1 "ascii ''ABC123''" "[]"] by (simp add: ascii_def)
  have c2: "sublist (ascii ''/d/'') (url_path ?u2)"
    unfolding contains_iff_sublist [symmetric] by (simp add: contains_def ascii_def)
  have p2: "url_path ?u2 = 47 # ascii ''file'' @ ascii ''/d/'' @ ascii ''XYZ789'' @ ascii ''/view''"
    "47 \<notin> set (ascii ''file'')" "47 \<notin> set (ascii ''XYZ789'')"
    "ascii ''/view'' = [] \<or> hd (ascii ''/view'') = 47"
    by (simp_all add: ascii_def)
  have b: "resolve_file_id ?u2 = Some (Some (ascii ''XYZ789''))"
    using link_resolution [of ?u2 _ _ None _ "ascii ''file''" "ascii ''XYZ789''" "ascii ''/view''"]
      q fl c2 p2 by blast
  have c3: "sublist (ascii ''/d/'') (url_path ?u3)"
    unfolding contains_iff_sublist [symmetric] by (simp add: contains_def ascii_def)
  have l3: "length (split_on 47 (url_path ?u3)) \<le> 3" by (simp add: ascii_def)
  have c: "resolve_file_id ?u3 = None"
    using link_resolution [of ?u3 _ _ None] q fl c3 l3 by blast
  have c4: "\<not> sublist (ascii ''/d/'') (url_path ?u4)"
    unfolding contains_iff_sublist [symmetric] by (simp add: contains_def ascii_def)
  have d: "resolve_file_id ?u4 = Some None"
    using link_resolution [of ?u4 _ _ None] q fl c4 by blast
  have up: "urlparse ?env (ascii ''https://drive.example.com/folders/abc'') = Some ?u4"
    by simp
  have e: "download_pdf ?env (ascii ''https://drive.example.com/folders/abc'') (ascii ''ann'')
             (ascii ''paper'') stored_world = (InvalidLink, stored_world)"
    using link_resolution [of ?u4 _ _ _ _ _ _ _ ?env "ascii ''https://drive.example.com/folders/abc''"
        "ascii ''ann''" "ascii ''paper''" stored_world] up d by blast
  from a b c d e show ?thesis by blast
qed

text \<open>
  The segment after \<open>/d/\<close> is not what is taken when \<open>/d/\<close> does not follow the first
  segment: for the path \<open>/d/XYZ/view\<close> the component at index 3 is \<open>view\<close>.
\<close>

theorem link_resolution_counterexample:
  "url_path \<lparr>url_path = ascii ''/d/XYZ/view'', query_params = Map.empty\<rparr> =
     ascii ''/d/'' @ ascii ''XYZ'' @ ascii ''/view'' \<and>
   resolve_file_id \<lparr>url_path = ascii ''/d/XYZ/view'', query_params = Map.empty\<rparr> =
     Some (Some (ascii ''view'')) \<and>
   resolve_file_id \<lparr>url_path = ascii ''/d/XYZ/view'', query_params = Map.empty\<rparr> \<noteq>
     Some (Some (ascii ''XYZ''))"
proof -
  have c: "contains (ascii ''/d/'') (ascii ''/d/XYZ/view'')"
    by (simp add: contains_def ascii_def)
  have sp: "split_on 47 (ascii ''/d/XYZ/view'') = [[], ascii ''d'', ascii ''XYZ'', ascii ''view'']"
    by (simp add: ascii_def)
  have r: "resolve_file_id \<lparr>url_path = ascii ''/d/XYZ/view'', query_params = Map.empty\<rparr> =
     Some (Some (ascii ''view''))"
    by (simp add: resolve_file_id_def query_id_def falsy_def path_id_def c sp index_def)
  have n: "ascii ''view'' \<noteq> ascii ''XYZ''" by (simp add: ascii_def)
  have p: "ascii ''/d/XYZ/view'' = ascii ''/d/'' @ ascii ''XYZ'' @ ascii ''/view''"
    by (simp add: ascii_def)
  from r n p show ?thesis by simp
qed

end
